theory Spec2Isabelle
  imports Main
begin

section \<open>Exceptions\<close>

text \<open>
  The exceptions of \<^verbatim>\<open>app/utils.py\<close> that the two subsystems can raise, as values.
  Python's \<^verbatim>\<open>TypeError\<close> has two sources here: the validator's own
  \<^verbatim>\<open>raise TypeError(...)\<close> (key, expected type name, given type name) and the
  interpreter's, when \<^verbatim>\<open>0 < x\<close> is evaluated on a value that is no number
  (operator, left and right type name). \<^verbatim>\<open>ValueError\<close> likewise: the validator's
  (key, condition message) and \<^verbatim>\<open>datetime.fromisoformat\<close>'s (the rejected string).
  \<^verbatim>\<open>DataError\<close> is the exception of an \<^verbatim>\<open>UPDATE\<close> whose value for a timestamp column
  is a string the database does not read as a timestamp (the rejected string).
\<close>

datatype error =
    KeyError string
  | TypeMismatchError string string string
  | OperandTypeError string string string
  | InvalidValueError string string
  | IsoformatValueError string
  | AttributeError string
  | DataError string

fun is_TypeError :: "error \<Rightarrow> bool" where
  "is_TypeError (TypeMismatchError k expected given) = True"
| "is_TypeError (OperandTypeError oper l r) = True"
| "is_TypeError e = False"

fun is_ValueError :: "error \<Rightarrow> bool" where
  "is_ValueError (InvalidValueError k msg) = True"
| "is_ValueError (IsoformatValueError s) = True"
| "is_ValueError e = False"

section \<open>The status update of a tracked entity\<close>

text \<open>
  A row of the model's table maps column names to cells. A cell holds text (the status
  column, the columns a filter names) or a parsed \<^verbatim>\<open>datetime\<close>; the type of parsed
  timestamps is left open, and \<^verbatim>\<open>datetime.fromisoformat\<close> is a parameter that
  returns \<open>None\<close> where Python raises \<^verbatim>\<open>ValueError\<close>.
\<close>

datatype 'dt cell = Text string | Time 'dt

type_synonym 'dt row = "string \<rightharpoonup> 'dt cell"

text \<open>
  Lines 61 to 66: \<^verbatim>\<open>data = status_update\<close>, then the timestamp the new status calls
  for is replaced by its parsed form. \<^verbatim>\<open>data["status"]\<close> and
  \<^verbatim>\<open>data["started_time"]\<close> raise \<^verbatim>\<open>KeyError\<close> on a missing key. The second
  branch tests membership in \<^verbatim>\<open>["SUCCESS", "FAILURE"]\<close>; every other status,
  \<^verbatim>\<open>ABORTED\<close> among them, leaves the fields as they were given.
\<close>

definition derive_timestamps ::
  "(string \<Rightarrow> 'dt option) \<Rightarrow> (string \<rightharpoonup> string) \<Rightarrow> error + (string \<rightharpoonup> 'dt cell)" where
  "derive_timestamps fromisoformat status_update =
     (let data = map_option Text \<circ> status_update in
      case status_update ''status'' of
        None \<Rightarrow> Inl (KeyError ''status'')
      | Some st \<Rightarrow>
          if st = ''STARTED'' then
            (case status_update ''started_time'' of
               None \<Rightarrow> Inl (KeyError ''started_time'')
             | Some s \<Rightarrow>
                 (case fromisoformat s of
                    None \<Rightarrow> Inl (IsoformatValueError s)
                  | Some t \<Rightarrow> Inr (data(''started_time'' \<mapsto> Time t))))
          else if st \<in> set [''SUCCESS'', ''FAILURE''] then
            (case status_update ''finished_time'' of
               None \<Rightarrow> Inl (KeyError ''finished_time'')
             | Some s \<Rightarrow>
                 (case fromisoformat s of
                    None \<Rightarrow> Inl (IsoformatValueError s)
                  | Some t \<Rightarrow> Inr (data(''finished_time'' \<mapsto> Time t))))
          else Inr data)"

text \<open>
  \<^verbatim>\<open>filter_by(**filter_by)\<close>: every named column equals the given text. The
  dictionary is given by its items.
\<close>

definition filter_by_matches :: "(string \<times> string) list \<Rightarrow> 'dt row \<Rightarrow> bool" where
  "filter_by_matches filter_by r = list_all (\<lambda>(k, v). r k = Some (Text v)) filter_by"

text \<open>\<^verbatim>\<open>model.status.in_(["PENDING", "STARTED"])\<close>; a row without status matches nothing.\<close>

definition status_in :: "string list \<Rightarrow> 'dt row \<Rightarrow> bool" where
  "status_in sts r = (case r ''status'' of Some (Text s) \<Rightarrow> s \<in> set sts | _ \<Rightarrow> False)"

definition selected :: "(string \<times> string) list \<Rightarrow> 'dt row \<Rightarrow> bool" where
  "selected filter_by r = (filter_by_matches filter_by r \<and> status_in [''PENDING'', ''STARTED''] r)"

text \<open>
  Modelled from the spec: the declaration of the model's columns, which is not in
  \<^verbatim>\<open>app/utils.py\<close>. The record of a tracked entity (section 3 of the spec) has a
  status and the two timestamps \<^verbatim>\<open>started_time\<close> and \<^verbatim>\<open>finished_time\<close>; these two are
  the timestamp columns, every other column holds text.
\<close>

definition timestamp_columns :: "string list" where
  "timestamp_columns = [''started_time'', ''finished_time'']"

text \<open>
  The values of an \<^verbatim>\<open>UPDATE\<close> statement as the database takes them, for the columns
  \<open>cols\<close> of timestamp type: a \<^verbatim>\<open>datetime\<close> is stored as it is, and a string is read
  as a timestamp by the database's own reader \<open>to_timestamp\<close>, a parameter that
  returns \<open>None\<close> where the database rejects the string. The rejection is an error of
  the statement, raised whether or not a row matches.
\<close>

fun bind_values ::
  "(string \<Rightarrow> 'dt option) \<Rightarrow> string list \<Rightarrow> (string \<rightharpoonup> 'dt cell) \<Rightarrow> error + (string \<rightharpoonup> 'dt cell)" where
  "bind_values to_timestamp [] data = Inr data"
| "bind_values to_timestamp (c # cols) data =
     (case data c of
        Some (Text s) \<Rightarrow>
          (case to_timestamp s of
             None \<Rightarrow> Inl (DataError s)
           | Some t \<Rightarrow> bind_values to_timestamp cols (data(c \<mapsto> Time t)))
      | _ \<Rightarrow> bind_values to_timestamp cols data)"

text \<open>
  \<^verbatim>\<open>Query.update(data)\<close>: one conditional \<^verbatim>\<open>UPDATE\<close> statement. Every selected row
  takes the values of the statement; the result is the number of rows the statement
  matched. A statement that the database rejects changes no row.
\<close>

definition query_update ::
  "(string \<Rightarrow> 'dt option) \<Rightarrow> (string \<times> string) list \<Rightarrow> (string \<rightharpoonup> 'dt cell) \<Rightarrow> 'dt row list
     \<Rightarrow> error + nat \<times> 'dt row list" where
  "query_update to_timestamp filter_by data tbl =
     (case bind_values to_timestamp timestamp_columns data of
        Inl e \<Rightarrow> Inl e
      | Inr vals \<Rightarrow>
          Inr (length (filter (selected filter_by) tbl),
               map (\<lambda>r. if selected filter_by r then r ++ vals else r) tbl))"

text \<open>
  \<^verbatim>\<open>update_status_db(status_update, model, filter_by)\<close>, with the table of \<open>model\<close>
  passed in and returned. An exception of lines 63 to 66 is raised before the query is
  built, and an exception of the query leaves the table as it was, so in both cases the
  table is the one given. \<^verbatim>\<open>bool(res)\<close> is \<open>res \<noteq> 0\<close>.
\<close>

definition update_status_db ::
  "(string \<Rightarrow> 'dt option) \<Rightarrow> (string \<Rightarrow> 'dt option) \<Rightarrow> (string \<rightharpoonup> string) \<Rightarrow> 'dt row list
     \<Rightarrow> (string \<times> string) list \<Rightarrow> (error + bool) \<times> 'dt row list" where
  "update_status_db fromisoformat to_timestamp status_update model filter_by =
     (case derive_timestamps fromisoformat status_update of
        Inl e \<Rightarrow> (Inl e, model)
      | Inr data \<Rightarrow>
          (case query_update to_timestamp filter_by data model of
             Inl e \<Rightarrow> (Inl e, model)
           | Inr (res, model') \<Rightarrow> (Inr (res \<noteq> 0), model')))"

text \<open>
  The values the statement of a call sets, or the exception the call ends with before
  any row is looked at: the two steps above, one after the other.
\<close>

definition statement_values ::
  "(string \<Rightarrow> 'dt option) \<Rightarrow> (string \<Rightarrow> 'dt option) \<Rightarrow> (string \<rightharpoonup> string)
     \<Rightarrow> error + (string \<rightharpoonup> 'dt cell)" where
  "statement_values fromisoformat to_timestamp status_update =
     (case derive_timestamps fromisoformat status_update of
        Inl e \<Rightarrow> Inl e
      | Inr data \<Rightarrow> bind_values to_timestamp timestamp_columns data)"

text \<open>
  The column that lines 63 to 66 parse under the status \<open>st\<close>: \<^verbatim>\<open>started_time\<close> under
  \<^verbatim>\<open>STARTED\<close>, \<^verbatim>\<open>finished_time\<close> under \<^verbatim>\<open>SUCCESS\<close> and \<^verbatim>\<open>FAILURE\<close>, none otherwise.
\<close>

definition parsed_column :: "string \<Rightarrow> string \<Rightarrow> bool" where
  "parsed_column st col =
     ((st = ''STARTED'' \<and> col = ''started_time'')
      \<or> (st \<in> set [''SUCCESS'', ''FAILURE''] \<and> col = ''finished_time''))"

text \<open>The end states the function's documentation names.\<close>

definition end_state :: "'dt row \<Rightarrow> bool" where
  "end_state r = status_in [''SUCCESS'', ''FAILURE'', ''ABORTED''] r"

section \<open>Setting values and the registry\<close>

text \<open>
  The setting values of the model: \<^verbatim>\<open>None\<close>, booleans, integers and strings, that
  is, the three types the registry declares and the value of a JSON \<^verbatim>\<open>null\<close>. Floats
  and compound JSON values, which the settings table's JSON column and
  \<^verbatim>\<open>flask_app.config\<close> can hold as well, are left out. \<open>type_of\<close> is Python's
  \<^verbatim>\<open>type(v)\<close>, which tells \<^verbatim>\<open>bool\<close> from \<^verbatim>\<open>int\<close>, and \<open>type_name\<close> its
  \<^verbatim>\<open>__name__\<close>.
\<close>

datatype pyval = VNone | VBool bool | VInt int | VStr string

datatype pytype = TNoneType | TBool | TInt | TStr

fun type_of :: "pyval \<Rightarrow> pytype" where
  "type_of VNone = TNoneType"
| "type_of (VBool b) = TBool"
| "type_of (VInt i) = TInt"
| "type_of (VStr s) = TStr"

fun type_name :: "pytype \<Rightarrow> string" where
  "type_name TNoneType = ''NoneType''"
| "type_name TBool = ''bool''"
| "type_name TInt = ''int''"
| "type_name TStr = ''str''"

text \<open>
  Python's \<^verbatim>\<open>==\<close> on these values: a boolean is the integer 0 or 1, and values of
  unrelated types are unequal. \<open>py_ne\<close> is \<^verbatim>\<open>!=\<close>.
\<close>

fun py_eq :: "pyval \<Rightarrow> pyval \<Rightarrow> bool" where
  "py_eq VNone VNone = True"
| "py_eq (VBool a) (VBool b) = (a = b)"
| "py_eq (VInt i) (VInt j) = (i = j)"
| "py_eq (VBool a) (VInt j) = ((if a then 1 else 0) = j)"
| "py_eq (VInt i) (VBool b) = (i = (if b then 1 else 0))"
| "py_eq (VStr s) (VStr t) = (s = t)"
| "py_eq a b = False"

definition py_ne :: "pyval \<Rightarrow> pyval \<Rightarrow> bool" where
  "py_ne a b = (\<not> py_eq a b)"

text \<open>
  \<^verbatim>\<open>lambda x: 0 < x <= 25\<close>. The chained comparison starts with \<^verbatim>\<open>0 < x\<close>, which
  raises \<^verbatim>\<open>TypeError\<close> when \<open>x\<close> is a string or \<^verbatim>\<open>None\<close>.
\<close>

fun within_1_25 :: "pyval \<Rightarrow> error + bool" where
  "within_1_25 (VInt i) = Inr (0 < i \<and> i \<le> 25)"
| "within_1_25 (VBool b) = Inr b"
| "within_1_25 (VStr s) = Inl (OperandTypeError ''<'' ''int'' ''str'')"
| "within_1_25 VNone = Inl (OperandTypeError ''<'' ''int'' ''NoneType'')"

text \<open>
  An entry of \<^verbatim>\<open>_config_values\<close>. The entries whose condition is \<^verbatim>\<open>None\<close> have no
  \<^verbatim>\<open>"condition-msg"\<close>; the field is read only under a condition.
\<close>

record config_value =
  cv_default :: pyval
  cv_type :: pytype
  requires_restart :: bool
  condition :: "(pyval \<Rightarrow> error + bool) option"
  condition_msg :: string

text \<open>
  The registry in its dictionary order. The default of \<^verbatim>\<open>TELEMETRY_UUID\<close> is
  \<^verbatim>\<open>str(uuid.uuid4())\<close>, drawn once when the class is created: a parameter.
\<close>

definition config_values :: "string \<Rightarrow> (string \<times> config_value) list" where
  "config_values telemetry_uuid =
    [(''MAX_JOB_RUNS_PARALLELISM'',
        \<lparr>cv_default = VInt 1, cv_type = TInt, requires_restart = True,
         condition = Some within_1_25, condition_msg = ''within the range [1, 25]''\<rparr>),
     (''MAX_INTERACTIVE_RUNS_PARALLELISM'',
        \<lparr>cv_default = VInt 1, cv_type = TInt, requires_restart = True,
         condition = Some within_1_25, condition_msg = ''within the range [1, 25]''\<rparr>),
     (''AUTH_ENABLED'',
        \<lparr>cv_default = VBool False, cv_type = TBool, requires_restart = True,
         condition = None, condition_msg = []\<rparr>),
     (''TELEMETRY_DISABLED'',
        \<lparr>cv_default = VBool False, cv_type = TBool, requires_restart = True,
         condition = None, condition_msg = []\<rparr>),
     (''TELEMETRY_UUID'',
        \<lparr>cv_default = VStr telemetry_uuid, cv_type = TStr, requires_restart = True,
         condition = None, condition_msg = []\<rparr>),
     (''INTERCOM_USER_EMAIL'',
        \<lparr>cv_default = VStr ''johndoe@example.org'', cv_type = TStr, requires_restart = True,
         condition = None, condition_msg = []\<rparr>)]"

definition cloud_unmodifiable_config_opts :: "string list" where
  "cloud_unmodifiable_config_opts =
     [''TELEMETRY_UUID'', ''TELEMETRY_DISABLED'', ''AUTH_ENABLED'', ''INTERCOM_USER_EMAIL'']"

type_synonym dict = "string \<rightharpoonup> pyval"

section \<open>Validation\<close>

text \<open>
  The body of the loop of \<^verbatim>\<open>_validate_dict\<close> for one registry entry, on the
  dictionary \<open>d\<close> that Python mutates in place: the result is the exception raised, if
  any, and \<open>d\<close> as it then is. A key missing from \<open>d\<close> is passed over. Both checks
  read \<^verbatim>\<open>given_val\<close>, the value fetched at the top of the iteration; the condition is
  called on it also after the type check has stored the default under the key. An
  exception of the condition itself leaves the loop like any other.
\<close>

definition validate_item ::
  "bool \<Rightarrow> bool \<Rightarrow> string \<Rightarrow> config_value \<Rightarrow> dict \<Rightarrow> error option \<times> dict" where
  "validate_item cloud migrate k val d =
     (case d k of
        None \<Rightarrow> (None, d)
      | Some given_val \<Rightarrow>
          (let not_allowed_to_migrate = (cloud \<and> k \<in> set cloud_unmodifiable_config_opts);
               mismatch = (type_of given_val \<noteq> cv_type val)
           in if mismatch \<and> (\<not> migrate \<or> not_allowed_to_migrate)
              then (Some (TypeMismatchError k (type_name (cv_type val))
                            (type_name (type_of given_val))), d)
              else
                (let d1 = (if mismatch then d(k \<mapsto> cv_default val) else d)
                 in case condition val of
                      None \<Rightarrow> (None, d1)
                    | Some c \<Rightarrow>
                        (case c given_val of
                           Inl e \<Rightarrow> (Some e, d1)
                         | Inr True \<Rightarrow> (None, d1)
                         | Inr False \<Rightarrow>
                             if \<not> migrate \<or> not_allowed_to_migrate
                             then (Some (InvalidValueError k (condition_msg val)), d1)
                             else (None, d1(k \<mapsto> cv_default val))))))"

fun validate_items ::
  "bool \<Rightarrow> bool \<Rightarrow> (string \<times> config_value) list \<Rightarrow> dict \<Rightarrow> error option \<times> dict" where
  "validate_items cloud migrate [] d = (None, d)"
| "validate_items cloud migrate ((k, val) # items) d =
     (case validate_item cloud migrate k val d of
        (Some e, d') \<Rightarrow> (Some e, d')
      | (None, d') \<Rightarrow> validate_items cloud migrate items d')"

text \<open>\<^verbatim>\<open>_validate_dict(d, migrate)\<close>, with the class attribute \<^verbatim>\<open>_cloud\<close> as \<open>cloud\<close>.\<close>

definition validate_dict :: "bool \<Rightarrow> string \<Rightarrow> dict \<Rightarrow> bool \<Rightarrow> error option \<times> dict" where
  "validate_dict cloud telemetry_uuid d migrate =
     validate_items cloud migrate (config_values telemetry_uuid) d"

section \<open>The settings object\<close>

text \<open>
  The settings table maps a setting's name (its unique column) to the value stored under
  \<^verbatim>\<open>"value"\<close>. \<^verbatim>\<open>_fetch_settings_from_db\<close> reads the whole table into a dictionary.
\<close>

definition fetch_settings_from_db :: "dict \<Rightarrow> dict" where
  "fetch_settings_from_db db = db"

text \<open>
  \<^verbatim>\<open>_get_current_configs\<close>. The handler of \<^verbatim>\<open>(TypeError, ValueError)\<close> builds the
  message of \<^verbatim>\<open>CorruptedFileError\<close> from \<^verbatim>\<open>self._path\<close>, an attribute that neither
  the class nor \<^verbatim>\<open>__init__\<close> defines, so evaluating the message raises
  \<^verbatim>\<open>AttributeError\<close> and that is the exception that leaves the function.
\<close>

definition get_current_configs :: "bool \<Rightarrow> string \<Rightarrow> dict \<Rightarrow> error + (dict \<times> dict)" where
  "get_current_configs cloud telemetry_uuid db =
     (case validate_dict cloud telemetry_uuid (fetch_settings_from_db db) True of
        (Some e, current_config) \<Rightarrow>
          if is_TypeError e \<or> is_ValueError e then Inl (AttributeError ''_path'') else Inl e
      | (None, current_config) \<Rightarrow>
          Inr (if cloud
               then fold (\<lambda>k unmodifiable_config.
                            case current_config k of
                              Some v \<Rightarrow> unmodifiable_config(k \<mapsto> v)
                            | None \<Rightarrow> unmodifiable_config)
                      cloud_unmodifiable_config_opts Map.empty
               else Map.empty,
               current_config))"

text \<open>
  The object's state is the \<^verbatim>\<open>ChainMap\<close> \<^verbatim>\<open>self._values\<close>: its three maps, in lookup
  order.
\<close>

record settings =
  unmodifiable_config :: dict
  current_config :: dict
  defaults :: dict

definition default_values :: "string \<Rightarrow> dict" where
  "default_values telemetry_uuid =
     map_of (map (\<lambda>(k, val). (k, cv_default val)) (config_values telemetry_uuid))"

definition init :: "bool \<Rightarrow> string \<Rightarrow> dict \<Rightarrow> error + settings" where
  "init cloud telemetry_uuid db =
     (case get_current_configs cloud telemetry_uuid db of
        Inl e \<Rightarrow> Inl e
      | Inr (unmodifiable, current) \<Rightarrow>
          Inr \<lparr>unmodifiable_config = unmodifiable, current_config = current,
               defaults = default_values telemetry_uuid\<rparr>)"

text \<open>\<^verbatim>\<open>__getitem__\<close>: the first map that has the key answers; none having it is a \<^verbatim>\<open>KeyError\<close>.\<close>

definition getitem :: "settings \<Rightarrow> string \<Rightarrow> error + pyval" where
  "getitem s key =
     (case unmodifiable_config s key of
        Some v \<Rightarrow> Inr v
      | None \<Rightarrow>
          (case current_config s key of
             Some v \<Rightarrow> Inr v
           | None \<Rightarrow>
               (case defaults s key of
                  Some v \<Rightarrow> Inr v
                | None \<Rightarrow> Inl (KeyError key))))"

text \<open>\<^verbatim>\<open>as_dict\<close>: \<^verbatim>\<open>dict(self._values)\<close>, earlier maps overriding later ones.\<close>

definition as_dict :: "settings \<Rightarrow> dict" where
  "as_dict s = defaults s ++ current_config s ++ unmodifiable_config s"

text \<open>
  \<^verbatim>\<open>update\<close> and \<^verbatim>\<open>set\<close>: the handler logs and raises the exception it caught, so
  the exception of the validation is the method's, and the state is then untouched.
\<close>

definition update :: "bool \<Rightarrow> string \<Rightarrow> settings \<Rightarrow> dict \<Rightarrow> (error + unit) \<times> settings" where
  "update cloud telemetry_uuid s d =
     (case validate_dict cloud telemetry_uuid d False of
        (Some e, d') \<Rightarrow> (Inl e, s)
      | (None, d') \<Rightarrow> (Inr (), s\<lparr>current_config := current_config s ++ d'\<rparr>))"

definition set_settings :: "bool \<Rightarrow> string \<Rightarrow> settings \<Rightarrow> dict \<Rightarrow> (error + unit) \<times> settings" where
  "set_settings cloud telemetry_uuid s d =
     (case validate_dict cloud telemetry_uuid d False of
        (Some e, d') \<Rightarrow> (Inl e, s)
      | (None, d') \<Rightarrow> (Inr (), s\<lparr>current_config := d'\<rparr>))"

section \<open>Restart impact and saving\<close>

text \<open>\<^verbatim>\<open>dict.get(k)\<close>: \<^verbatim>\<open>None\<close> for a missing key.\<close>

definition dict_get :: "dict \<Rightarrow> string \<Rightarrow> pyval" where
  "dict_get d k = (case d k of None \<Rightarrow> VNone | Some v \<Rightarrow> v)"

text \<open>
  The loop of \<^verbatim>\<open>_changes_require_restart\<close> over the registry's items, \<open>res\<close> being the
  list it appends to; \<open>config\<close> is \<^verbatim>\<open>flask_app.config\<close>.
\<close>

fun changes_loop ::
  "bool \<Rightarrow> dict \<Rightarrow> dict \<Rightarrow> (string \<times> config_value) list \<Rightarrow> string list \<Rightarrow> string list" where
  "changes_loop cloud config new [] res = res"
| "changes_loop cloud config new ((k, val) # items) res =
     (if \<not> requires_restart val then changes_loop cloud config new items res
      else if cloud \<and> k \<in> set cloud_unmodifiable_config_opts
      then changes_loop cloud config new items res
      else
        (let old_val = dict_get config k
         in if dict_get new k \<noteq> VNone \<and> py_ne (dict_get new k) old_val
            then changes_loop cloud config new items (res @ [k])
            else changes_loop cloud config new items res))"

definition changes_require_restart :: "bool \<Rightarrow> string \<Rightarrow> dict \<Rightarrow> dict \<Rightarrow> string list" where
  "changes_require_restart cloud telemetry_uuid config new =
     changes_loop cloud config new (config_values telemetry_uuid) []"

text \<open>
  The two statements of \<^verbatim>\<open>save\<close> on the settings table: the insert of every item with
  \<^verbatim>\<open>ON CONFLICT (name) DO UPDATE\<close>, and the delete of the names not among the keys.
\<close>

definition upsert :: "dict \<Rightarrow> dict \<Rightarrow> dict" where
  "upsert db entries = db ++ entries"

definition delete_not_in :: "dict \<Rightarrow> string set \<Rightarrow> dict" where
  "delete_not_in db names = db |` names"

text \<open>
  \<^verbatim>\<open>save(flask_app)\<close>, on the table \<open>db\<close>: the value returned and the table after
  the commit. \<open>flask_app\<close> is \<open>None\<close> or the application's \<^verbatim>\<open>config\<close>.
\<close>

definition save ::
  "bool \<Rightarrow> string \<Rightarrow> settings \<Rightarrow> dict \<Rightarrow> dict option \<Rightarrow> string list option \<times> dict" where
  "save cloud telemetry_uuid s db flask_app =
     (let settings_as_dict = as_dict s;
          db1 = upsert db settings_as_dict;
          db2 = delete_not_in db1 (dom settings_as_dict)
      in (case flask_app of
            None \<Rightarrow> None
          | Some config \<Rightarrow>
              Some (changes_require_restart cloud telemetry_uuid config settings_as_dict),
          db2))"

section \<open>Valid entries\<close>


section \<open>Calls on a settings object\<close>

text \<open>
  The calls that change a settings object after \<^verbatim>\<open>__init__\<close>, and the state a list of
  them leads to. A call that raises leaves the state as it was.
\<close>

datatype call = Update_call dict | Set_call dict

fun apply_call :: "bool \<Rightarrow> string \<Rightarrow> settings \<Rightarrow> call \<Rightarrow> settings" where
  "apply_call cloud telemetry_uuid s (Update_call d) = snd (update cloud telemetry_uuid s d)"
| "apply_call cloud telemetry_uuid s (Set_call d) = snd (set_settings cloud telemetry_uuid s d)"

fun after_calls :: "bool \<Rightarrow> string \<Rightarrow> settings \<Rightarrow> call list \<Rightarrow> settings" where
  "after_calls cloud telemetry_uuid s [] = s"
| "after_calls cloud telemetry_uuid s (c # calls) =
     after_calls cloud telemetry_uuid (apply_call cloud telemetry_uuid s c) calls"

section \<open>Properties of the status update\<close>

lemma end_state_not_selected: "end_state r \<Longrightarrow> \<not> selected filter_by r"
  by (auto simp: end_state_def selected_def status_in_def split: option.splits cell.splits)

lemma bind_values_columns:
  assumes "bind_values to_timestamp cols data = Inr vals"
  shows "vals col =
     (if col \<in> set cols
      then (case data col of
              Some (Text s) \<Rightarrow> Some (Time (the (to_timestamp s)))
            | x \<Rightarrow> x)
      else data col)"
  using assms
proof (induction cols arbitrary: data)
  case Nil
  then show ?case by simp
next
  case (Cons c cols)
  show ?case
  proof (cases "data c")
    case None
    then have "bind_values to_timestamp cols data = Inr vals" using Cons.prems by simp
    from Cons.IH [OF this] show ?thesis using None by auto
  next
    case (Some x)
    show ?thesis
    proof (cases x)
      case (Time t)
      then have "bind_values to_timestamp cols data = Inr vals"
        using Cons.prems Some by simp
      from Cons.IH [OF this] show ?thesis using Some Time by auto
    next
      case (Text s)
      then obtain t where t: "to_timestamp s = Some t"
        and rest: "bind_values to_timestamp cols (data(c \<mapsto> Time t)) = Inr vals"
        using Cons.prems Some by (auto split: option.splits)
      from Cons.IH [OF rest] show ?thesis using Some Text t by auto
    qed
  qed
qed

lemma bind_values_succeeds:
  assumes "\<forall>col \<in> set cols. \<forall>s. data col = Some (Text s) \<longrightarrow> to_timestamp s \<noteq> None"
  shows "\<exists>vals. bind_values to_timestamp cols data = Inr vals"
  using assms
proof (induction cols arbitrary: data)
  case Nil
  then show ?case by simp
next
  case (Cons c cols)
  have rest: "\<forall>col \<in> set cols. \<forall>s. data col = Some (Text s) \<longrightarrow> to_timestamp s \<noteq> None"
    using Cons.prems by simp
  show ?case
  proof (cases "data c")
    case None
    then show ?thesis using Cons.IH [OF rest] by simp
  next
    case (Some x)
    show ?thesis
    proof (cases x)
      case (Time t)
      then show ?thesis using Some Cons.IH [OF rest] by simp
    next
      case (Text s)
      then obtain t where t: "to_timestamp s = Some t" using Cons.prems Some by auto
      have "\<forall>col \<in> set cols. \<forall>s'. (data(c \<mapsto> Time t)) col = Some (Text s')
              \<longrightarrow> to_timestamp s' \<noteq> None"
        using rest by auto
      then have "\<exists>vals. bind_values to_timestamp cols (data(c \<mapsto> Time t)) = Inr vals"
        by (rule Cons.IH [of "data(c \<mapsto> Time t)"])
      then show ?thesis using Some Text t by simp
    qed
  qed
qed

lemma bind_values_rejects:
  assumes "data col = Some (Text s)" and "to_timestamp s = None" and "col \<in> set cols"
  shows "\<exists>e. bind_values to_timestamp cols data = Inl e"
  using assms(1,3)
proof (induction cols arbitrary: data)
  case Nil
  then show ?case by simp
next
  case (Cons c cols)
  show ?case
  proof (cases "c = col")
    case True
    then show ?thesis using Cons.prems(1) assms(2) by simp
  next
    case False
    then have mem: "col \<in> set cols" using Cons.prems(2) by simp
    show ?thesis
    proof (cases "data c")
      case None
      then show ?thesis using Cons.IH [of data, OF Cons.prems(1) mem] by simp
    next
      case (Some x)
      show ?thesis
      proof (cases x)
        case (Time t)
        then show ?thesis using Some Cons.IH [of data, OF Cons.prems(1) mem] by simp
      next
        case (Text s')
        show ?thesis
        proof (cases "to_timestamp s'")
          case None
          then show ?thesis using Some Text by simp
        next
          case (Some t)
          have "(data(c \<mapsto> Time t)) col = Some (Text s)"
            using False Cons.prems(1) by simp
          from Cons.IH [of "data(c \<mapsto> Time t)", OF this mem]
          have r: "\<exists>e. bind_values to_timestamp cols (data(c \<mapsto> Time t)) = Inl e" .
          have "bind_values to_timestamp (c # cols) data =
                  bind_values to_timestamp cols (data(c \<mapsto> Time t))"
            using \<open>data c = Some x\<close> Text Some by simp
          then show ?thesis using r by (simp only:)
        qed
      qed
    qed
  qed
qed

lemma update_status_db_result:
  "update_status_db fromisoformat to_timestamp status_update model filter_by =
     (case statement_values fromisoformat to_timestamp status_update of
        Inl e \<Rightarrow> (Inl e, model)
      | Inr vals \<Rightarrow>
          (Inr (filter (selected filter_by) model \<noteq> []),
           map (\<lambda>r. if selected filter_by r then r ++ vals else r) model))"
  by (simp add: update_status_db_def statement_values_def query_update_def split: sum.splits)

lemma update_status_db_none_selected:
  assumes "\<forall>r \<in> set model. \<not> selected filter_by r"
  shows "update_status_db fromisoformat to_timestamp status_update model filter_by =
           (case statement_values fromisoformat to_timestamp status_update of
              Inl e \<Rightarrow> Inl e | Inr vals \<Rightarrow> Inr False, model)"
proof -
  have "filter (selected filter_by) model = []"
    using assms by (simp add: filter_empty_conv)
  moreover have "map (\<lambda>r. if selected filter_by r then r ++ vals else r) model = model" for vals
    using assms by (simp add: map_idI)
  ultimately show ?thesis
    by (simp add: update_status_db_result split: sum.splits)
qed

lemma update_status_db_keeps_unselected:
  assumes "i < length model" and "\<not> selected filter_by (model ! i)"
  shows "snd (update_status_db fromisoformat to_timestamp status_update model filter_by) ! i
           = model ! i"
  using assms by (simp add: update_status_db_result split: sum.splits)

lemma update_status_db_length:
  "length (snd (update_status_db fromisoformat to_timestamp status_update model filter_by))
     = length model"
  by (simp add: update_status_db_result split: sum.splits)

lemma update_status_db_some_selected:
  assumes "i < length model" and "selected filter_by (model ! i)"
    and "statement_values fromisoformat to_timestamp status_update = Inr vals"
  shows "fst (update_status_db fromisoformat to_timestamp status_update model filter_by) = Inr True"
    and "snd (update_status_db fromisoformat to_timestamp status_update model filter_by) ! i
           = (model ! i) ++ vals"
proof -
  have "model ! i \<in> set (filter (selected filter_by) model)"
    using assms(1,2) by simp
  then have "filter (selected filter_by) model \<noteq> []"
    by (metis empty_iff empty_set)
  then show "fst (update_status_db fromisoformat to_timestamp status_update model filter_by)
               = Inr True"
    using assms(3) by (simp add: update_status_db_result)
  show "snd (update_status_db fromisoformat to_timestamp status_update model filter_by) ! i
           = (model ! i) ++ vals"
    using assms by (simp add: update_status_db_result)
qed


lemma derive_timestamps_started:
  assumes "status_update ''status'' = Some ''STARTED''"
  shows "derive_timestamps fromisoformat status_update =
     (case status_update ''started_time'' of
        None \<Rightarrow> Inl (KeyError ''started_time'')
      | Some s \<Rightarrow>
          (case fromisoformat s of
             None \<Rightarrow> Inl (IsoformatValueError s)
           | Some t \<Rightarrow> Inr ((map_option Text \<circ> status_update)(''started_time'' \<mapsto> Time t))))"
  using assms by (simp add: derive_timestamps_def)

lemma derive_timestamps_finished:
  assumes "status_update ''status'' = Some st" and "st \<in> {''SUCCESS'', ''FAILURE''}"
  shows "derive_timestamps fromisoformat status_update =
     (case status_update ''finished_time'' of
        None \<Rightarrow> Inl (KeyError ''finished_time'')
      | Some s \<Rightarrow>
          (case fromisoformat s of
             None \<Rightarrow> Inl (IsoformatValueError s)
           | Some t \<Rightarrow> Inr ((map_option Text \<circ> status_update)(''finished_time'' \<mapsto> Time t))))"
proof -
  have "st \<noteq> ''STARTED''" using assms(2) by auto
  moreover have "st \<in> set [''SUCCESS'', ''FAILURE'']" using assms(2) by simp
  ultimately show ?thesis
    using assms(1) unfolding derive_timestamps_def Let_def by (simp only: option.case if_False if_True)
qed

lemma derive_timestamps_other:
  assumes "status_update ''status'' = Some st"
    and "st \<noteq> ''STARTED''" and "st \<notin> {''SUCCESS'', ''FAILURE''}"
  shows "derive_timestamps fromisoformat status_update = Inr (map_option Text \<circ> status_update)"
proof -
  have "st \<notin> set [''SUCCESS'', ''FAILURE'']" using assms(3) by simp
  then show ?thesis
    using assms(1,2) unfolding derive_timestamps_def Let_def by (simp only: option.case if_False if_True)
qed


lemma derive_timestamps_columns:
  assumes "derive_timestamps fromisoformat status_update = Inr data"
    and "status_update ''status'' = Some st"
  shows "data c =
     (case status_update c of
        None \<Rightarrow> None
      | Some v \<Rightarrow>
          Some (if (st = ''STARTED'' \<and> c = ''started_time'')
                   \<or> (st \<in> {''SUCCESS'', ''FAILURE''} \<and> c = ''finished_time'')
                then Time (the (fromisoformat v)) else Text v))"
proof -
  consider (started) "st = ''STARTED''"
    | (finished) "st \<in> {''SUCCESS'', ''FAILURE''}"
    | (other) "st \<noteq> ''STARTED''" "st \<notin> {''SUCCESS'', ''FAILURE''}"
    by blast
  then show ?thesis
  proof cases
    case started
    then have nf: "st \<notin> {''SUCCESS'', ''FAILURE''}" by simp
    from started assms(2) have "status_update ''status'' = Some ''STARTED''" by simp
    from derive_timestamps_started [of status_update fromisoformat, OF this] assms(1)
    obtain s t where s: "status_update ''started_time'' = Some s"
      and t: "fromisoformat s = Some t"
      and d: "data = (map_option Text \<circ> status_update)(''started_time'' \<mapsto> Time t)"
      by (auto split: option.splits)
    show ?thesis
    proof (cases "c = ''started_time''")
      case True
      then show ?thesis using s t d started by simp
    next
      case False
      then show ?thesis using d nf started by (simp split: option.splits)
    qed
  next
    case finished
    then have ns: "st \<noteq> ''STARTED''" by auto
    from derive_timestamps_finished [of status_update st fromisoformat, OF assms(2) finished] assms(1)
    obtain s t where s: "status_update ''finished_time'' = Some s"
      and t: "fromisoformat s = Some t"
      and d: "data = (map_option Text \<circ> status_update)(''finished_time'' \<mapsto> Time t)"
      by (auto split: option.splits)
    show ?thesis
    proof (cases "c = ''finished_time''")
      case True
      then show ?thesis using s t d finished by simp
    next
      case False
      then show ?thesis using d ns by (simp split: option.splits)
    qed
  next
    case other
    from derive_timestamps_other [of status_update st fromisoformat, OF assms(2) other] assms(1)
    have "data = map_option Text \<circ> status_update" by simp
    then show ?thesis using other by (simp split: option.splits)
  qed
qed

lemma derive_timestamps_succeeds:
  assumes "status_update ''status'' = Some st"
    and "st = ''STARTED'' \<longrightarrow>
           (\<exists>s t. status_update ''started_time'' = Some s \<and> fromisoformat s = Some t)"
    and "st \<in> {''SUCCESS'', ''FAILURE''} \<longrightarrow>
           (\<exists>s t. status_update ''finished_time'' = Some s \<and> fromisoformat s = Some t)"
  shows "\<exists>data. derive_timestamps fromisoformat status_update = Inr data"
proof -
  consider (started) "st = ''STARTED''"
    | (finished) "st \<in> {''SUCCESS'', ''FAILURE''}"
    | (other) "st \<noteq> ''STARTED''" "st \<notin> {''SUCCESS'', ''FAILURE''}"
    by blast
  then show ?thesis
  proof cases
    case started
    with assms(2) obtain s t where "status_update ''started_time'' = Some s"
      and "fromisoformat s = Some t" by blast
    moreover from started assms(1) have "status_update ''status'' = Some ''STARTED''" by simp
    ultimately show ?thesis by (simp add: derive_timestamps_started)
  next
    case finished
    with assms(3) obtain s t where "status_update ''finished_time'' = Some s"
      and "fromisoformat s = Some t" by blast
    then show ?thesis by (simp add: derive_timestamps_finished [of status_update st fromisoformat, OF assms(1) finished])
  next
    case other
    show ?thesis by (simp add: derive_timestamps_other [of status_update st fromisoformat, OF assms(1) other])
  qed
qed



lemma derive_timestamps_parsed:
  assumes "derive_timestamps fromisoformat status_update = Inr data"
    and "status_update ''status'' = Some st"
  shows "data col =
     (case status_update col of
        None \<Rightarrow> None
      | Some v \<Rightarrow>
          Some (if parsed_column st col then Time (the (fromisoformat v)) else Text v))"
proof -
  have "parsed_column st col =
          ((st = ''STARTED'' \<and> col = ''started_time'')
           \<or> (st \<in> {''SUCCESS'', ''FAILURE''} \<and> col = ''finished_time''))"
    by (simp add: parsed_column_def)
  then show ?thesis
    using derive_timestamps_columns [OF assms, of col] by (simp only:)
qed

lemma statement_values_columns:
  assumes "statement_values fromisoformat to_timestamp status_update = Inr vals"
    and "status_update ''status'' = Some st"
  shows "vals col =
     (case status_update col of
        None \<Rightarrow> None
      | Some v \<Rightarrow>
          Some (if parsed_column st col then Time (the (fromisoformat v))
                else if col \<in> set timestamp_columns then Time (the (to_timestamp v))
                else Text v))"
proof -
  obtain data where data: "derive_timestamps fromisoformat status_update = Inr data"
    and vals: "bind_values to_timestamp timestamp_columns data = Inr vals"
    using assms(1) by (auto simp: statement_values_def split: sum.splits)
  note d = derive_timestamps_parsed [OF data assms(2), of col]
  note v = bind_values_columns [OF vals, of col]
  show ?thesis
  proof (cases "status_update col")
    case None
    then show ?thesis using d v by simp
  next
    case (Some x)
    then show ?thesis using d v by simp
  qed
qed

lemma statement_values_succeeds:
  assumes "status_update ''status'' = Some st"
    and "st = ''STARTED'' \<longrightarrow>
           (\<exists>s t. status_update ''started_time'' = Some s \<and> fromisoformat s = Some t)"
    and "st \<in> {''SUCCESS'', ''FAILURE''} \<longrightarrow>
           (\<exists>s t. status_update ''finished_time'' = Some s \<and> fromisoformat s = Some t)"
    and "\<forall>col \<in> set timestamp_columns. \<forall>s.
           status_update col = Some s \<longrightarrow> \<not> parsed_column st col \<longrightarrow> to_timestamp s \<noteq> None"
  shows "\<exists>vals. statement_values fromisoformat to_timestamp status_update = Inr vals"
proof -
  obtain data where data: "derive_timestamps fromisoformat status_update = Inr data"
    using derive_timestamps_succeeds [of status_update st fromisoformat, OF assms(1,2,3)]
    by blast
  have "\<forall>col \<in> set timestamp_columns. \<forall>s. data col = Some (Text s) \<longrightarrow> to_timestamp s \<noteq> None"
  proof (intro ballI allI impI)
    fix col s
    assume col: "col \<in> set timestamp_columns" and cell: "data col = Some (Text s)"
    note d = derive_timestamps_parsed [OF data assms(1), of col]
    from cell d obtain v where v: "status_update col = Some v"
      by (cases "status_update col") simp_all
    from cell d v have "\<not> parsed_column st col" and "v = s"
      by (auto split: if_splits)
    with assms(4) col v show "to_timestamp s \<noteq> None" by blast
  qed
  then obtain vals where "bind_values to_timestamp timestamp_columns data = Inr vals"
    using bind_values_succeeds by blast
  then show ?thesis using data by (simp add: statement_values_def)
qed


text \<open>
  Claim C1, as the code has it. An entity in an end state (\<^verbatim>\<open>SUCCESS\<close>, \<^verbatim>\<open>FAILURE\<close>,
  \<^verbatim>\<open>ABORTED\<close>) is never modified: whatever the filter and the new status fields, its
  row after the call is its row before. When every row the filter matches is in an end
  state (the filter names this entity and no entity that is still pending or started),
  no row is matched and the table is unchanged; the call then returns \<open>False\<close> if the
  status fields can be read, that is, they carry a status, \<^verbatim>\<open>started_time\<close> is present
  and parses under \<^verbatim>\<open>STARTED\<close>, \<^verbatim>\<open>finished_time\<close> is present and parses under
  \<^verbatim>\<open>SUCCESS\<close> and \<^verbatim>\<open>FAILURE\<close>, and any other timestamp among them is a string the
  database reads as a timestamp. It raises only what reading the fields raises, which
  does not depend on the rows; an empty match is never an exception.
\<close>

theorem terminal_write_once:
  assumes "i < length model" and "end_state (model ! i)"
  shows "snd (update_status_db fromisoformat to_timestamp status_update model filter_by) ! i
           = model ! i
    \<and> ((\<forall>r \<in> set model. filter_by_matches filter_by r \<longrightarrow> end_state r) \<longrightarrow>
         update_status_db fromisoformat to_timestamp status_update model filter_by =
           (case statement_values fromisoformat to_timestamp status_update of
              Inl e \<Rightarrow> Inl e | Inr vals \<Rightarrow> Inr False, model))
    \<and> ((\<forall>r \<in> set model. filter_by_matches filter_by r \<longrightarrow> end_state r) \<longrightarrow>
        status_update ''status'' = Some st \<longrightarrow>
        (st = ''STARTED'' \<longrightarrow>
           (\<exists>s t. status_update ''started_time'' = Some s \<and> fromisoformat s = Some t)) \<longrightarrow>
        (st \<in> {''SUCCESS'', ''FAILURE''} \<longrightarrow>
           (\<exists>s t. status_update ''finished_time'' = Some s \<and> fromisoformat s = Some t)) \<longrightarrow>
        (\<forall>col \<in> set timestamp_columns. \<forall>s.
           status_update col = Some s \<longrightarrow> \<not> parsed_column st col \<longrightarrow> to_timestamp s \<noteq> None) \<longrightarrow>
        update_status_db fromisoformat to_timestamp status_update model filter_by
          = (Inr False, model))"
proof -
  have "\<not> selected filter_by (model ! i)"
    using assms(2) by (rule end_state_not_selected)
  with assms(1)
  have kept: "snd (update_status_db fromisoformat to_timestamp status_update model filter_by) ! i
          = model ! i"
    by (rule update_status_db_keeps_unselected)
  have none: "update_status_db fromisoformat to_timestamp status_update model filter_by =
           (case statement_values fromisoformat to_timestamp status_update of
              Inl e \<Rightarrow> Inl e | Inr vals \<Rightarrow> Inr False, model)"
    if only: "\<forall>r \<in> set model. filter_by_matches filter_by r \<longrightarrow> end_state r"
  proof -
    have "\<forall>r \<in> set model. \<not> selected filter_by r"
    proof
      fix r assume "r \<in> set model"
      show "\<not> selected filter_by r"
      proof (cases "filter_by_matches filter_by r")
        case True
        with only \<open>r \<in> set model\<close> have "end_state r" by blast
        then show ?thesis by (rule end_state_not_selected)
      next
        case False
        then show ?thesis by (simp add: selected_def)
      qed
    qed
    then show ?thesis by (rule update_status_db_none_selected)
  qed
  have readable: "update_status_db fromisoformat to_timestamp status_update model filter_by
          = (Inr False, model)"
    if only: "\<forall>r \<in> set model. filter_by_matches filter_by r \<longrightarrow> end_state r"
      and st: "status_update ''status'' = Some st"
      and started: "st = ''STARTED'' \<longrightarrow>
           (\<exists>s t. status_update ''started_time'' = Some s \<and> fromisoformat s = Some t)"
      and finished: "st \<in> {''SUCCESS'', ''FAILURE''} \<longrightarrow>
           (\<exists>s t. status_update ''finished_time'' = Some s \<and> fromisoformat s = Some t)"
      and others: "\<forall>col \<in> set timestamp_columns. \<forall>s.
           status_update col = Some s \<longrightarrow> \<not> parsed_column st col \<longrightarrow> to_timestamp s \<noteq> None"
  proof -
    obtain vals where "statement_values fromisoformat to_timestamp status_update = Inr vals"
      using statement_values_succeeds
        [of status_update st fromisoformat to_timestamp, OF st started finished others]
      by blast
    then show ?thesis using none [OF only] by simp
  qed
  show ?thesis using kept none readable by blast
qed

text \<open>
  The spec's example: an entity in \<^verbatim>\<open>SUCCESS\<close>, an update to \<^verbatim>\<open>FAILURE\<close> with a
  finish time. The call returns \<open>False\<close> and the table is as it was.
\<close>

theorem terminal_write_once_witness:
  "update_status_db
     (\<lambda>s. if s = ''2022-03-01T10:00:00'' then Some (1646128800 :: nat) else None)
     (\<lambda>s. if s = ''2022-03-01T10:00:00'' then Some (1646128800 :: nat) else None)
     [''status'' \<mapsto> ''FAILURE'', ''finished_time'' \<mapsto> ''2022-03-01T10:00:00'']
     [[''uuid'' \<mapsto> Text ''run-1'', ''status'' \<mapsto> Text ''SUCCESS'']]
     [(''uuid'', ''run-1'')]
   = (Inr False, [[''uuid'' \<mapsto> Text ''run-1'', ''status'' \<mapsto> Text ''SUCCESS'']])"
proof -
  let ?f = "\<lambda>s. if s = ''2022-03-01T10:00:00'' then Some (1646128800 :: nat) else None"
  let ?su = "[''status'' \<mapsto> ''FAILURE'', ''finished_time'' \<mapsto> ''2022-03-01T10:00:00'']"
  let ?m = "[[''uuid'' \<mapsto> Text ''run-1'', ''status'' \<mapsto> (Text ''SUCCESS'' :: nat cell)]]"
  let ?flt = "[(''uuid'', ''run-1'')]"
  have len: "0 < length ?m" by simp
  have fin: "end_state (?m ! 0)" by (simp add: end_state_def status_in_def)
  have only: "\<forall>r \<in> set ?m. filter_by_matches ?flt r \<longrightarrow> end_state r"
    by (simp add: end_state_def status_in_def)
  have st: "?su ''status'' = Some ''FAILURE''" by simp
  have started: "''FAILURE'' = ''STARTED'' \<longrightarrow>
      (\<exists>s t. ?su ''started_time'' = Some s \<and> ?f s = Some t)" by simp
  have finished: "''FAILURE'' \<in> {''SUCCESS'', ''FAILURE''} \<longrightarrow>
      (\<exists>s t. ?su ''finished_time'' = Some s \<and> ?f s = Some t)" by simp
  have others: "\<forall>col \<in> set timestamp_columns. \<forall>s.
      ?su col = Some s \<longrightarrow> \<not> parsed_column ''FAILURE'' col \<longrightarrow> ?f s \<noteq> None"
    by (simp add: timestamp_columns_def parsed_column_def)
  note t = terminal_write_once [where status_update = "?su" and st = "''FAILURE''"
      and fromisoformat = "?f" and to_timestamp = "?f" and filter_by = "?flt", OF len fin]
  from t only st started finished others show ?thesis by blast
qed

text \<open>
  Where the claim as written fails. A filter that matches the entity in \<^verbatim>\<open>SUCCESS\<close>
  and also an entity in \<^verbatim>\<open>PENDING\<close> (both runs of one project): the call returns
  \<open>True\<close>. And status fields \<^verbatim>\<open>{"status": "STARTED"}\<close> with no start time, on the
  entity in \<^verbatim>\<open>SUCCESS\<close> alone: the call raises \<^verbatim>\<open>KeyError\<close> and returns nothing.
\<close>

theorem terminal_entity_call_not_false:
  "end_state [''project'' \<mapsto> Text ''p'', ''uuid'' \<mapsto> Text ''run-1'',
              ''status'' \<mapsto> (Text ''SUCCESS'' :: nat cell)]
   \<and> filter_by_matches [(''project'', ''p'')]
        [''project'' \<mapsto> Text ''p'', ''uuid'' \<mapsto> Text ''run-1'',
         ''status'' \<mapsto> (Text ''SUCCESS'' :: nat cell)]
   \<and> fst (update_status_db
        (\<lambda>s. if s = ''2022-03-01T10:00:00'' then Some (1646128800 :: nat) else None)
        (\<lambda>s. if s = ''2022-03-01T10:00:00'' then Some (1646128800 :: nat) else None)
        [''status'' \<mapsto> ''FAILURE'', ''finished_time'' \<mapsto> ''2022-03-01T10:00:00'']
        [[''project'' \<mapsto> Text ''p'', ''uuid'' \<mapsto> Text ''run-1'', ''status'' \<mapsto> Text ''SUCCESS''],
         [''project'' \<mapsto> Text ''p'', ''uuid'' \<mapsto> Text ''run-2'', ''status'' \<mapsto> Text ''PENDING'']]
        [(''project'', ''p'')]) = Inr True
   \<and> update_status_db
        (\<lambda>s. if s = ''2022-03-01T10:00:00'' then Some (1646128800 :: nat) else None)
        (\<lambda>s. if s = ''2022-03-01T10:00:00'' then Some (1646128800 :: nat) else None)
        [''status'' \<mapsto> ''STARTED'']
        [[''uuid'' \<mapsto> Text ''run-1'', ''status'' \<mapsto> Text ''SUCCESS'']]
        [(''uuid'', ''run-1'')]
      = (Inl (KeyError ''started_time''),
         [[''uuid'' \<mapsto> Text ''run-1'', ''status'' \<mapsto> Text ''SUCCESS'']])"
  by (simp add: update_status_db_def derive_timestamps_def query_update_def selected_def
      filter_by_matches_def status_in_def end_state_def timestamp_columns_def)





section \<open>Properties of the validation\<close>

lemma validate_item_absent:
  "d k = None \<Longrightarrow> validate_item cloud migrate k val d = (None, d)"
  by (simp add: validate_item_def)

lemma validate_item_dict:
  "snd (validate_item cloud migrate k val d) = d
   \<or> (migrate \<and> \<not> (cloud \<and> k \<in> set cloud_unmodifiable_config_opts) \<and> d k \<noteq> None
       \<and> snd (validate_item cloud migrate k val d) = d(k \<mapsto> cv_default val))"
proof (cases "d k")
  case None
  then show ?thesis by (simp add: validate_item_absent)
next
  case (Some given_val)
  show ?thesis
  proof (cases "\<not> migrate \<or> (cloud \<and> k \<in> set cloud_unmodifiable_config_opts)")
    case True
    then have "snd (validate_item cloud migrate k val d) = d"
      using Some
      by (auto simp: validate_item_def Let_def split: option.splits sum.splits bool.splits)
    then show ?thesis by simp
  next
    case False
    then show ?thesis
      using Some
      by (auto simp: validate_item_def Let_def split: option.splits sum.splits bool.splits)
  qed
qed


lemma validate_item_no_migrate:
  "snd (validate_item cloud False k val d) = d"
  using validate_item_dict [of cloud False k val d] by simp

lemma validate_items_no_migrate:
  "snd (validate_items cloud False items d) = d"
proof (induction items arbitrary: d)
  case Nil
  then show ?case by simp
next
  case (Cons a items)
  obtain k val where a: "a = (k, val)" by (cases a)
  obtain r d' where v: "validate_item cloud False k val d = (r, d')"
    by (cases "validate_item cloud False k val d")
  have "d' = d" using validate_item_no_migrate [of cloud k val d] v by simp
  then show ?case using Cons.IH [of d] a v by (cases r) simp_all
qed

lemma validate_item_locked_key:
  assumes "cloud" and "k' \<in> set cloud_unmodifiable_config_opts"
  shows "snd (validate_item cloud migrate k val d) k' = d k'"
  using validate_item_dict [of cloud migrate k val d] assms by auto

lemma validate_items_locked_key:
  assumes "cloud" and "k' \<in> set cloud_unmodifiable_config_opts"
  shows "snd (validate_items cloud migrate items d) k' = d k'"
proof (induction items arbitrary: d)
  case Nil
  then show ?case by simp
next
  case (Cons a items)
  obtain k val where a: "a = (k, val)" by (cases a)
  obtain r d1 where v: "validate_item cloud migrate k val d = (r, d1)"
    by (cases "validate_item cloud migrate k val d")
  have "d1 k' = d k'" using validate_item_locked_key [OF assms, of migrate k val d] v by simp
  then show ?case using a v Cons.IH [of d1] by (cases r) simp_all
qed




text \<open>
  Claim C2, at the stored map \<^verbatim>\<open>{"MAX_JOB_RUNS_PARALLELISM": "5"}\<close>, not in cloud mode.
  The claim has the migrating validation put the default in place of the string and
  the construction go through. In the code the type check does store the default, and
  the condition is then called on the string: \<^verbatim>\<open>0 < "5"\<close> raises \<^verbatim>\<open>TypeError\<close>, the
  validation ends with that exception, and the handler of \<^verbatim>\<open>_get_current_configs\<close>
  ends the construction (with the \<^verbatim>\<open>AttributeError\<close> of its own message, in place
  of the \<^verbatim>\<open>CorruptedFileError\<close> it was about to raise).
\<close>

theorem migration_of_string_aborts_construction:
  "fst (validate_dict False telemetry_uuid [''MAX_JOB_RUNS_PARALLELISM'' \<mapsto> VStr ''5''] True)
     = Some (OperandTypeError ''<'' ''int'' ''str'')
   \<and> init False telemetry_uuid [''MAX_JOB_RUNS_PARALLELISM'' \<mapsto> VStr ''5'']
     = Inl (AttributeError ''_path'')"
  by (simp add: init_def get_current_configs_def fetch_settings_from_db_def validate_dict_def
      config_values_def validate_item_def)

text \<open>
  Claim C3, at the same candidate under \<^verbatim>\<open>migrate=True\<close>. When the condition is
  reached the candidate holds the default 1 under the key, and the condition holds of
  1; the code calls it on \<^verbatim>\<open>given_val\<close>, the string read before the type check, and
  the validation ends with the \<^verbatim>\<open>TypeError\<close> of the comparison.
\<close>

theorem condition_called_on_given_value:
  "snd (validate_dict False telemetry_uuid [''MAX_JOB_RUNS_PARALLELISM'' \<mapsto> VStr ''5''] True)
      ''MAX_JOB_RUNS_PARALLELISM'' = Some (VInt 1)
   \<and> within_1_25 (VInt 1) = Inr True
   \<and> fst (validate_dict False telemetry_uuid [''MAX_JOB_RUNS_PARALLELISM'' \<mapsto> VStr ''5''] True)
     = Some (OperandTypeError ''<'' ''int'' ''str'')"
  by (simp add: validate_dict_def config_values_def validate_item_def)





lemma config_values_distinct: "distinct (map fst (config_values telemetry_uuid))"
  by (simp add: config_values_def)

lemma update_result:
  "update cloud telemetry_uuid s d =
     (case fst (validate_dict cloud telemetry_uuid d False) of
        Some e \<Rightarrow> (Inl e, s)
      | None \<Rightarrow> (Inr (), s\<lparr>current_config := current_config s ++ d\<rparr>))"
proof -
  have "snd (validate_dict cloud telemetry_uuid d False) = d"
    by (simp add: validate_dict_def validate_items_no_migrate)
  then show ?thesis
    by (cases "validate_dict cloud telemetry_uuid d False") (simp add: update_def split: option.splits)
qed

lemma set_settings_result:
  "set_settings cloud telemetry_uuid s d =
     (case fst (validate_dict cloud telemetry_uuid d False) of
        Some e \<Rightarrow> (Inl e, s)
      | None \<Rightarrow> (Inr (), s\<lparr>current_config := d\<rparr>))"
proof -
  have "snd (validate_dict cloud telemetry_uuid d False) = d"
    by (simp add: validate_dict_def validate_items_no_migrate)
  then show ?thesis
    by (cases "validate_dict cloud telemetry_uuid d False")
       (simp add: set_settings_def split: option.splits)
qed






section \<open>Properties of the restart analysis and of saving\<close>

lemma py_eq_refl: "py_eq v v"
  by (cases v) simp_all

lemma changes_loop_filter:
  "changes_loop cloud config new items res =
     res @ map fst (filter (\<lambda>(k, val). requires_restart val
                              \<and> \<not> (cloud \<and> k \<in> set cloud_unmodifiable_config_opts)
                              \<and> dict_get new k \<noteq> VNone
                              \<and> py_ne (dict_get new k) (dict_get config k)) items)"
proof (induction items arbitrary: res)
  case Nil
  show ?case by simp
next
  case (Cons a items)
  obtain k val where a: "a = (k, val)" by (cases a)
  let ?keep = "requires_restart val
                 \<and> \<not> (cloud \<and> k \<in> set cloud_unmodifiable_config_opts)
                 \<and> dict_get new k \<noteq> VNone
                 \<and> py_ne (dict_get new k) (dict_get config k)"
  let ?P = "\<lambda>(k, val). requires_restart val
                 \<and> \<not> (cloud \<and> k \<in> set cloud_unmodifiable_config_opts)
                 \<and> dict_get new k \<noteq> VNone
                 \<and> py_ne (dict_get new k) (dict_get config k)"
  show ?case
  proof (cases ?keep)
    case True
    then have lhs: "changes_loop cloud config new ((k, val) # items) res =
                 changes_loop cloud config new items (res @ [k])"
      by (auto simp: Let_def)
    have rhs: "filter ?P ((k, val) # items) = (k, val) # filter ?P items"
      using True by simp
    show ?thesis unfolding a lhs rhs by (simp add: Cons.IH)
  next
    case False
    then have lhs: "changes_loop cloud config new ((k, val) # items) res =
                 changes_loop cloud config new items res"
      by (auto simp: Let_def)
    have rhs: "filter ?P ((k, val) # items) = filter ?P items"
      using False by simp
    show ?thesis unfolding a lhs rhs by (rule Cons.IH)
  qed
qed

text \<open>
  Claim C7. The restart analysis returns the registry keys, in registry order, whose
  entry requires a restart, that are not locked by cloud mode, that the new map defines
  (\<^verbatim>\<open>new.get(k) is not None\<close>) and whose new value is unequal (\<^verbatim>\<open>!=\<close>) to the one
  \<^verbatim>\<open>flask_app.config.get(k)\<close> gives. When the new map and the running configuration
  agree on every such key, the result is empty.
\<close>

theorem restart_impact_diff:
  "changes_require_restart cloud telemetry_uuid config new =
     map fst (filter (\<lambda>(k, val). requires_restart val
                              \<and> \<not> (cloud \<and> k \<in> set cloud_unmodifiable_config_opts)
                              \<and> dict_get new k \<noteq> VNone
                              \<and> py_ne (dict_get new k) (dict_get config k))
                (config_values telemetry_uuid))
   \<and> ((\<forall>(k, val) \<in> set (config_values telemetry_uuid).
          requires_restart val \<longrightarrow> \<not> (cloud \<and> k \<in> set cloud_unmodifiable_config_opts)
            \<longrightarrow> new k = config k)
        \<longrightarrow> changes_require_restart cloud telemetry_uuid config new = [])"
proof
  show eq: "changes_require_restart cloud telemetry_uuid config new =
     map fst (filter (\<lambda>(k, val). requires_restart val
                              \<and> \<not> (cloud \<and> k \<in> set cloud_unmodifiable_config_opts)
                              \<and> dict_get new k \<noteq> VNone
                              \<and> py_ne (dict_get new k) (dict_get config k))
                (config_values telemetry_uuid))"
    by (simp add: changes_require_restart_def changes_loop_filter)
  show "(\<forall>(k, val) \<in> set (config_values telemetry_uuid).
          requires_restart val \<longrightarrow> \<not> (cloud \<and> k \<in> set cloud_unmodifiable_config_opts)
            \<longrightarrow> new k = config k)
        \<longrightarrow> changes_require_restart cloud telemetry_uuid config new = []"
  proof
    assume agree: "\<forall>(k, val) \<in> set (config_values telemetry_uuid).
          requires_restart val \<longrightarrow> \<not> (cloud \<and> k \<in> set cloud_unmodifiable_config_opts)
            \<longrightarrow> new k = config k"
    have "filter (\<lambda>(k, val). requires_restart val
                              \<and> \<not> (cloud \<and> k \<in> set cloud_unmodifiable_config_opts)
                              \<and> dict_get new k \<noteq> VNone
                              \<and> py_ne (dict_get new k) (dict_get config k))
                (config_values telemetry_uuid) = []"
    proof (rule filter_False, clarify)
      fix k val
      assume mem: "(k, val) \<in> set (config_values telemetry_uuid)"
        and rr: "requires_restart val"
        and nl: "\<not> (cloud \<and> k \<in> set cloud_unmodifiable_config_opts)"
        and ne: "py_ne (dict_get new k) (dict_get config k)"
      from agree mem rr nl have "new k = config k" by blast
      then have "dict_get new k = dict_get config k" by (simp add: dict_get_def)
      with ne show False by (simp add: py_ne_def py_eq_refl)
    qed
    then show "changes_require_restart cloud telemetry_uuid config new = []"
      by (simp only: eq list.map)
  qed
qed

text \<open>
  The spec's example, not in cloud mode: the running configuration has
  \<^verbatim>\<open>AUTH_ENABLED\<close> false and the new map has it true; then both maps have it true. In
  cloud mode the key is locked and the first difference is not reported.
\<close>

theorem restart_impact_diff_witness:
  "changes_require_restart False ''7c9e6679-7425-40de-944b-e07fc1f90ae7''
     [''AUTH_ENABLED'' \<mapsto> VBool False] [''AUTH_ENABLED'' \<mapsto> VBool True] = [''AUTH_ENABLED'']
   \<and> changes_require_restart False ''7c9e6679-7425-40de-944b-e07fc1f90ae7''
     [''AUTH_ENABLED'' \<mapsto> VBool True] [''AUTH_ENABLED'' \<mapsto> VBool True] = []
   \<and> changes_require_restart True ''7c9e6679-7425-40de-944b-e07fc1f90ae7''
     [''AUTH_ENABLED'' \<mapsto> VBool False] [''AUTH_ENABLED'' \<mapsto> VBool True] = []"
proof -
  let ?u = "''7c9e6679-7425-40de-944b-e07fc1f90ae7''"
  let ?off = "[''AUTH_ENABLED'' \<mapsto> VBool False]"
  let ?on = "[''AUTH_ENABLED'' \<mapsto> VBool True]"
  have a: "changes_require_restart False ?u ?off ?on = [''AUTH_ENABLED'']"
    using restart_impact_diff [of False ?u ?off ?on]
    by (simp add: config_values_def dict_get_def py_ne_def)
  have "\<forall>(k, val) \<in> set (config_values ?u).
          requires_restart val \<longrightarrow> \<not> (False \<and> k \<in> set cloud_unmodifiable_config_opts)
            \<longrightarrow> ?on k = ?on k"
    by simp
  then have b: "changes_require_restart False ?u ?on ?on = []"
    using restart_impact_diff [of False ?u ?on ?on] by blast
  have c: "changes_require_restart True ?u ?off ?on = []"
    using restart_impact_diff [of True ?u ?off ?on]
    by (simp add: config_values_def dict_get_def py_ne_def cloud_unmodifiable_config_opts_def)
  show ?thesis using a b c by simp
qed


lemma upsert_then_delete: "delete_not_in (upsert db entries) (dom entries) = entries"
proof
  fix k
  show "delete_not_in (upsert db entries) (dom entries) k = entries k"
    by (cases "entries k") (auto simp: delete_not_in_def upsert_def restrict_map_def map_add_def)
qed

text \<open>
  Claim C8. After \<^verbatim>\<open>save\<close>, what the settings table holds, as
  \<^verbatim>\<open>_fetch_settings_from_db\<close> reads it back, is exactly the flattened map of the
  settings object: the same names, each with the value of the flattened map, and no
  other name, whatever the table held before and whether or not a \<^verbatim>\<open>flask_app\<close> is
  given.
\<close>

theorem save_stores_effective_map:
  "dom (fetch_settings_from_db (snd (save cloud telemetry_uuid s db flask_app))) = dom (as_dict s)
   \<and> (\<forall>k v. as_dict s k = Some v \<longrightarrow>
         fetch_settings_from_db (snd (save cloud telemetry_uuid s db flask_app)) k = Some v)
   \<and> (\<forall>k. k \<notin> dom (as_dict s) \<longrightarrow>
         fetch_settings_from_db (snd (save cloud telemetry_uuid s db flask_app)) k = None)"
proof -
  have "fetch_settings_from_db (snd (save cloud telemetry_uuid s db flask_app)) = as_dict s"
    by (simp add: save_def Let_def upsert_then_delete fetch_settings_from_db_def)
  then show ?thesis by auto
qed

text \<open>
  The spec's example: the table holds \<^verbatim>\<open>OLD_KEY\<close> and a parallelism of 1; the settings
  object stores a parallelism of 3 and nothing under \<^verbatim>\<open>OLD_KEY\<close>. After \<^verbatim>\<open>save\<close> the
  table has no \<^verbatim>\<open>OLD_KEY\<close>, the parallelism is 3, and a key that only the defaults
  define is stored with its default.
\<close>

theorem save_stores_effective_map_witness:
  "fetch_settings_from_db (snd (save False ''7c9e6679-7425-40de-944b-e07fc1f90ae7''
     \<lparr>unmodifiable_config = Map.empty,
      current_config = [''MAX_JOB_RUNS_PARALLELISM'' \<mapsto> VInt 3],
      defaults = default_values ''7c9e6679-7425-40de-944b-e07fc1f90ae7''\<rparr>
     [''OLD_KEY'' \<mapsto> VStr ''stale'', ''MAX_JOB_RUNS_PARALLELISM'' \<mapsto> VInt 1]
     None)) ''OLD_KEY'' = None
   \<and> fetch_settings_from_db (snd (save False ''7c9e6679-7425-40de-944b-e07fc1f90ae7''
     \<lparr>unmodifiable_config = Map.empty,
      current_config = [''MAX_JOB_RUNS_PARALLELISM'' \<mapsto> VInt 3],
      defaults = default_values ''7c9e6679-7425-40de-944b-e07fc1f90ae7''\<rparr>
     [''OLD_KEY'' \<mapsto> VStr ''stale'', ''MAX_JOB_RUNS_PARALLELISM'' \<mapsto> VInt 1]
     None)) ''MAX_JOB_RUNS_PARALLELISM'' = Some (VInt 3)
   \<and> fetch_settings_from_db (snd (save False ''7c9e6679-7425-40de-944b-e07fc1f90ae7''
     \<lparr>unmodifiable_config = Map.empty,
      current_config = [''MAX_JOB_RUNS_PARALLELISM'' \<mapsto> VInt 3],
      defaults = default_values ''7c9e6679-7425-40de-944b-e07fc1f90ae7''\<rparr>
     [''OLD_KEY'' \<mapsto> VStr ''stale'', ''MAX_JOB_RUNS_PARALLELISM'' \<mapsto> VInt 1]
     None)) ''AUTH_ENABLED'' = Some (VBool False)"
proof -
  let ?u = "''7c9e6679-7425-40de-944b-e07fc1f90ae7''"
  let ?s = "\<lparr>unmodifiable_config = Map.empty,
      current_config = [''MAX_JOB_RUNS_PARALLELISM'' \<mapsto> VInt 3],
      defaults = default_values ?u\<rparr>"
  let ?db = "[''OLD_KEY'' \<mapsto> VStr ''stale'', ''MAX_JOB_RUNS_PARALLELISM'' \<mapsto> VInt 1]"
  let ?after = "fetch_settings_from_db (snd (save False ?u ?s ?db None))"
  note t = save_stores_effective_map [of False ?u ?s ?db None]
  have old: "''OLD_KEY'' \<notin> dom (as_dict ?s)"
    by (simp add: as_dict_def default_values_def config_values_def dom_def)
  have par: "as_dict ?s ''MAX_JOB_RUNS_PARALLELISM'' = Some (VInt 3)"
    by (simp add: as_dict_def)
  have auth: "as_dict ?s ''AUTH_ENABLED'' = Some (VBool False)"
    by (simp add: as_dict_def default_values_def config_values_def)
  from t old have "?after ''OLD_KEY'' = None" by blast
  moreover from t par have "?after ''MAX_JOB_RUNS_PARALLELISM'' = Some (VInt 3)"
    by blast
  moreover from t auth have "?after ''AUTH_ENABLED'' = Some (VBool False)"
    by blast
  ultimately show ?thesis by blast
qed

section \<open>Properties of the settings object\<close>

lemma copy_unmodifiable:
  "fold (\<lambda>k unmodifiable_config.
           case current k of
             Some v \<Rightarrow> unmodifiable_config(k \<mapsto> v)
           | None \<Rightarrow> unmodifiable_config) ks u0 k' =
     (if k' \<in> set ks \<and> current k' \<noteq> None then current k' else u0 k')"
proof (induction ks arbitrary: u0)
  case Nil
  show ?case by simp
next
  case (Cons k ks)
  show ?case by (cases "current k") (auto simp: Cons.IH)
qed

lemma init_Inr:
  assumes "init cloud telemetry_uuid db = Inr s"
  shows "fst (validate_dict cloud telemetry_uuid db True) = None"
    and "current_config s = snd (validate_dict cloud telemetry_uuid db True)"
    and "defaults s = default_values telemetry_uuid"
    and "unmodifiable_config s k =
           (if cloud \<and> k \<in> set cloud_unmodifiable_config_opts then current_config s k else None)"
proof -
  obtain r cur where v: "validate_dict cloud telemetry_uuid db True = (r, cur)"
    by (cases "validate_dict cloud telemetry_uuid db True")
  have r: "r = None"
    using assms v
    by (cases r)
       (auto simp: init_def get_current_configs_def fetch_settings_from_db_def split: if_splits)
  then show "fst (validate_dict cloud telemetry_uuid db True) = None" using v by simp
  have s: "s = \<lparr>unmodifiable_config =
                   (if cloud
                    then fold (\<lambda>k unmodifiable_config.
                                 case cur k of
                                   Some v \<Rightarrow> unmodifiable_config(k \<mapsto> v)
                                 | None \<Rightarrow> unmodifiable_config)
                           cloud_unmodifiable_config_opts Map.empty
                    else Map.empty),
                current_config = cur, defaults = default_values telemetry_uuid\<rparr>"
    using assms v r
    by (simp add: init_def get_current_configs_def fetch_settings_from_db_def)
  show "current_config s = snd (validate_dict cloud telemetry_uuid db True)"
    using s v by simp
  show "defaults s = default_values telemetry_uuid" using s by simp
  show "unmodifiable_config s k =
           (if cloud \<and> k \<in> set cloud_unmodifiable_config_opts then current_config s k else None)"
    by (cases "cur k") (simp_all add: s copy_unmodifiable)
qed

lemma default_values_registry:
  assumes "(k, val) \<in> set (config_values telemetry_uuid)"
  shows "default_values telemetry_uuid k = Some (cv_default val)"
proof -
  have "map_of (config_values telemetry_uuid) k = Some val"
    using config_values_distinct assms by (rule map_of_is_SomeI)
  then show ?thesis by (simp add: default_values_def map_of_map)
qed


lemma update_keeps_layers:
  "unmodifiable_config (snd (update cloud telemetry_uuid s d)) = unmodifiable_config s"
  "defaults (snd (update cloud telemetry_uuid s d)) = defaults s"
  by (simp_all add: update_result split: option.splits)

lemma set_settings_keeps_layers:
  "unmodifiable_config (snd (set_settings cloud telemetry_uuid s d)) = unmodifiable_config s"
  "defaults (snd (set_settings cloud telemetry_uuid s d)) = defaults s"
  by (simp_all add: set_settings_result split: option.splits)

lemma after_calls_keeps_layers:
  "unmodifiable_config (after_calls cloud telemetry_uuid s calls) = unmodifiable_config s
   \<and> defaults (after_calls cloud telemetry_uuid s calls) = defaults s"
proof (induction calls arbitrary: s)
  case Nil
  show ?case by simp
next
  case (Cons c calls)
  show ?case
  proof (cases c)
    case (Update_call d)
    then show ?thesis using Cons.IH by (simp add: update_keeps_layers)
  next
    case (Set_call d)
    then show ?thesis using Cons.IH by (simp add: set_settings_keeps_layers)
  qed
qed

lemma after_calls_snoc:
  "after_calls cloud telemetry_uuid s (calls @ [c]) =
     apply_call cloud telemetry_uuid (after_calls cloud telemetry_uuid s calls) c"
  by (induction calls arbitrary: s) simp_all

lemma constructed_layers:
  assumes "init cloud telemetry_uuid db = Inr s0"
  shows "defaults (after_calls cloud telemetry_uuid s0 calls) = default_values telemetry_uuid"
    and "unmodifiable_config (after_calls cloud telemetry_uuid s0 calls) k =
          (if cloud \<and> k \<in> set cloud_unmodifiable_config_opts
           then snd (validate_dict cloud telemetry_uuid db True) k else None)"
proof -
  show "defaults (after_calls cloud telemetry_uuid s0 calls) = default_values telemetry_uuid"
    using init_Inr(3) [OF assms] by (simp add: after_calls_keeps_layers)
  show "unmodifiable_config (after_calls cloud telemetry_uuid s0 calls) k =
          (if cloud \<and> k \<in> set cloud_unmodifiable_config_opts
           then snd (validate_dict cloud telemetry_uuid db True) k else None)"
    using init_Inr(4) [OF assms, of k] init_Inr(2) [OF assms]
    by (simp add: after_calls_keeps_layers)
qed

lemma getitem_locked: "unmodifiable_config s k = Some v \<Longrightarrow> getitem s k = Inr v"
  by (simp add: getitem_def)

lemma getitem_stored:
  "unmodifiable_config s k = None \<Longrightarrow> current_config s k = Some v \<Longrightarrow> getitem s k = Inr v"
  by (simp add: getitem_def)

lemma getitem_default:
  "unmodifiable_config s k = None \<Longrightarrow> current_config s k = None \<Longrightarrow> defaults s k = Some v
     \<Longrightarrow> getitem s k = Inr v"
  by (simp add: getitem_def)

lemma getitem_defined:
  assumes "defaults s k = Some w"
  shows "\<exists>v. getitem s k = Inr v"
  using assms by (simp add: getitem_def split: option.splits)

lemma constructed_locked_value:
  assumes "init cloud telemetry_uuid db = Inr s0" and "cloud"
    and "k \<in> set cloud_unmodifiable_config_opts" and "db k = Some v"
  shows "unmodifiable_config (after_calls cloud telemetry_uuid s0 calls) k = Some v"
proof -
  have "unmodifiable_config (after_calls cloud telemetry_uuid s0 calls) k
          = snd (validate_dict cloud telemetry_uuid db True) k"
    using constructed_layers(2) [OF assms(1), of calls k] assms(2,3) by simp
  also have "\<dots> = db k"
    unfolding validate_dict_def using assms(2,3) by (rule validate_items_locked_key)
  finally show ?thesis using assms(4) by simp
qed

text \<open>
  The order of lookups. In every state of a settings object, the one constructed from
  the settings table or one that a list of later calls of \<^verbatim>\<open>update\<close> and \<^verbatim>\<open>set\<close>
  leads to: a lookup answers from the locked layer, else from the stored layer, else
  from the defaults; a registry key that neither the locked nor the stored layer has
  yields the registry's default, and no lookup of a registry key fails. In cloud mode a
  key of \<^verbatim>\<open>_cloud_unmodifiable_config_opts\<close> that the settings table held at
  construction yields the value the table held then, and so it does after any further
  \<^verbatim>\<open>update\<close>.
\<close>

theorem lookup_order:
  assumes "init cloud telemetry_uuid db = Inr s0"
    and "s = after_calls cloud telemetry_uuid s0 calls"
  shows "(\<forall>k v. unmodifiable_config s k = Some v \<longrightarrow> getitem s k = Inr v)
    \<and> (\<forall>k v. unmodifiable_config s k = None \<longrightarrow> current_config s k = Some v \<longrightarrow> getitem s k = Inr v)
    \<and> (\<forall>k val. (k, val) \<in> set (config_values telemetry_uuid) \<longrightarrow>
          unmodifiable_config s k = None \<longrightarrow> current_config s k = None \<longrightarrow>
          getitem s k = Inr (cv_default val))
    \<and> (\<forall>k val. (k, val) \<in> set (config_values telemetry_uuid) \<longrightarrow> (\<exists>v. getitem s k = Inr v))
    \<and> (cloud \<longrightarrow>
         (\<forall>k v. k \<in> set cloud_unmodifiable_config_opts \<longrightarrow> db k = Some v \<longrightarrow>
            getitem s k = Inr v
            \<and> (\<forall>d. getitem (snd (update cloud telemetry_uuid s d)) k = Inr v)))"
proof -
  have dflt: "defaults s = default_values telemetry_uuid"
    unfolding assms(2) using assms(1) by (rule constructed_layers(1))
  have a: "\<forall>k v. unmodifiable_config s k = Some v \<longrightarrow> getitem s k = Inr v"
    by (simp add: getitem_locked)
  have b: "\<forall>k v. unmodifiable_config s k = None \<longrightarrow> current_config s k = Some v
             \<longrightarrow> getitem s k = Inr v"
    by (simp add: getitem_stored)
  have c: "\<forall>k val. (k, val) \<in> set (config_values telemetry_uuid) \<longrightarrow>
          unmodifiable_config s k = None \<longrightarrow> current_config s k = None \<longrightarrow>
          getitem s k = Inr (cv_default val)"
  proof (intro allI impI)
    fix k val
    assume "(k, val) \<in> set (config_values telemetry_uuid)"
      and "unmodifiable_config s k = None" and "current_config s k = None"
    moreover from this(1) have "defaults s k = Some (cv_default val)"
      by (simp only: dflt default_values_registry)
    ultimately show "getitem s k = Inr (cv_default val)" by (simp add: getitem_default)
  qed
  have d: "\<forall>k val. (k, val) \<in> set (config_values telemetry_uuid) \<longrightarrow> (\<exists>v. getitem s k = Inr v)"
  proof (intro allI impI)
    fix k val
    assume "(k, val) \<in> set (config_values telemetry_uuid)"
    then have "defaults s k = Some (cv_default val)"
      by (simp only: dflt default_values_registry)
    then show "\<exists>v. getitem s k = Inr v" by (rule getitem_defined)
  qed
  have e: "cloud \<longrightarrow>
         (\<forall>k v. k \<in> set cloud_unmodifiable_config_opts \<longrightarrow> db k = Some v \<longrightarrow>
            getitem s k = Inr v
            \<and> (\<forall>d. getitem (snd (update cloud telemetry_uuid s d)) k = Inr v))"
  proof (intro allI impI conjI)
    fix k v
    assume cloud and k: "k \<in> set cloud_unmodifiable_config_opts" and v: "db k = Some v"
    have "unmodifiable_config s k = Some v"
      unfolding assms(2) using assms(1) \<open>cloud\<close> k v by (rule constructed_locked_value)
    then show "getitem s k = Inr v" by (rule getitem_locked)
  next
    fix k v d
    assume cloud and k: "k \<in> set cloud_unmodifiable_config_opts" and v: "db k = Some v"
    have "snd (update cloud telemetry_uuid s d) =
            after_calls cloud telemetry_uuid s0 (calls @ [Update_call d])"
      by (simp add: after_calls_snoc assms(2))
    moreover have "unmodifiable_config
            (after_calls cloud telemetry_uuid s0 (calls @ [Update_call d])) k = Some v"
      using assms(1) \<open>cloud\<close> k v by (rule constructed_locked_value)
    ultimately have "unmodifiable_config (snd (update cloud telemetry_uuid s d)) k = Some v"
      by simp
    then show "getitem (snd (update cloud telemetry_uuid s d)) k = Inr v"
      by (rule getitem_locked)
  qed
  show ?thesis using a b c d e by blast
qed

text \<open>
  Cloud mode, a settings table that holds \<^verbatim>\<open>AUTH_ENABLED\<close> true. The constructed
  object answers true for \<^verbatim>\<open>AUTH_ENABLED\<close>, and still does after
  \<^verbatim>\<open>update({"AUTH_ENABLED": False})\<close>, which validates and returns; the parallelism,
  which no layer but the defaults has, is the default 1.
\<close>

theorem lookup_order_witness:
  "init True ''7c9e6679-7425-40de-944b-e07fc1f90ae7'' [''AUTH_ENABLED'' \<mapsto> VBool True]
     = Inr \<lparr>unmodifiable_config = [''AUTH_ENABLED'' \<mapsto> VBool True],
            current_config = [''AUTH_ENABLED'' \<mapsto> VBool True],
            defaults = default_values ''7c9e6679-7425-40de-944b-e07fc1f90ae7''\<rparr>
   \<and> fst (update True ''7c9e6679-7425-40de-944b-e07fc1f90ae7''
             \<lparr>unmodifiable_config = [''AUTH_ENABLED'' \<mapsto> VBool True],
              current_config = [''AUTH_ENABLED'' \<mapsto> VBool True],
              defaults = default_values ''7c9e6679-7425-40de-944b-e07fc1f90ae7''\<rparr>
             [''AUTH_ENABLED'' \<mapsto> VBool False]) = Inr ()
   \<and> getitem (snd (update True ''7c9e6679-7425-40de-944b-e07fc1f90ae7''
             \<lparr>unmodifiable_config = [''AUTH_ENABLED'' \<mapsto> VBool True],
              current_config = [''AUTH_ENABLED'' \<mapsto> VBool True],
              defaults = default_values ''7c9e6679-7425-40de-944b-e07fc1f90ae7''\<rparr>
             [''AUTH_ENABLED'' \<mapsto> VBool False])) ''AUTH_ENABLED'' = Inr (VBool True)
   \<and> getitem \<lparr>unmodifiable_config = [''AUTH_ENABLED'' \<mapsto> VBool True],
              current_config = [''AUTH_ENABLED'' \<mapsto> VBool True],
              defaults = default_values ''7c9e6679-7425-40de-944b-e07fc1f90ae7''\<rparr>
         ''MAX_JOB_RUNS_PARALLELISM'' = Inr (VInt 1)"
proof -
  let ?u = "''7c9e6679-7425-40de-944b-e07fc1f90ae7''"
  let ?db = "[''AUTH_ENABLED'' \<mapsto> VBool True]"
  let ?s = "\<lparr>unmodifiable_config = [''AUTH_ENABLED'' \<mapsto> VBool True],
            current_config = [''AUTH_ENABLED'' \<mapsto> VBool True],
            defaults = default_values ?u\<rparr>"
  let ?d = "[''AUTH_ENABLED'' \<mapsto> VBool False]"
  let ?par = "\<lparr>cv_default = VInt 1, cv_type = TInt, requires_restart = True,
         condition = Some within_1_25, condition_msg = ''within the range [1, 25]''\<rparr>"
  have i: "init True ?u ?db = Inr ?s"
    by (simp add: init_def get_current_configs_def fetch_settings_from_db_def validate_dict_def
        config_values_def validate_item_def cloud_unmodifiable_config_opts_def)
  have r: "?s = after_calls True ?u ?s []" by simp
  note t = lookup_order [OF i r]
  have ok: "fst (update True ?u ?s ?d) = Inr ()"
    by (simp add: update_def validate_dict_def config_values_def validate_item_def)
  have locked: "''AUTH_ENABLED'' \<in> set cloud_unmodifiable_config_opts"
    by (simp add: cloud_unmodifiable_config_opts_def)
  have stored: "?db ''AUTH_ENABLED'' = Some (VBool True)" by simp
  from t locked stored
  have g1: "getitem (snd (update True ?u ?s ?d)) ''AUTH_ENABLED'' = Inr (VBool True)"
    by blast
  have mem: "(''MAX_JOB_RUNS_PARALLELISM'', ?par) \<in> set (config_values ?u)"
    by (simp add: config_values_def)
  have n1: "unmodifiable_config ?s ''MAX_JOB_RUNS_PARALLELISM'' = None" by simp
  have n2: "current_config ?s ''MAX_JOB_RUNS_PARALLELISM'' = None" by simp
  from t mem n1 n2
  have "getitem ?s ''MAX_JOB_RUNS_PARALLELISM'' = Inr (cv_default ?par)" by blast
  then have g2: "getitem ?s ''MAX_JOB_RUNS_PARALLELISM'' = Inr (VInt 1)" by simp
  show ?thesis using i ok g1 g2 by blast
qed


text \<open>
  A key the settings table did not hold at construction is in no locked layer, in cloud
  mode or not; lookups of it answer from the stored layer and the defaults.
\<close>

lemma unstored_key_is_not_locked:
  assumes "init cloud telemetry_uuid db = Inr s0" and "db k = None"
  shows "unmodifiable_config (after_calls cloud telemetry_uuid s0 calls) k = None"
proof (cases "cloud \<and> k \<in> set cloud_unmodifiable_config_opts")
  case True
  then have "unmodifiable_config (after_calls cloud telemetry_uuid s0 calls) k
               = snd (validate_dict cloud telemetry_uuid db True) k"
    using constructed_layers(2) [OF assms(1), of calls k] by simp
  also have "\<dots> = db k"
    unfolding validate_dict_def using True by (simp add: validate_items_locked_key)
  finally show ?thesis using assms(2) by simp
next
  case False
  then show ?thesis using constructed_layers(2) [OF assms(1), of calls k] by auto
qed

text \<open>
  Claim C5, in cloud mode on an empty settings table. The claim has every key of
  \<^verbatim>\<open>_cloud_unmodifiable_config_opts\<close> keep, after a later \<^verbatim>\<open>update\<close>, the value it had
  when the object was constructed, and the documentation of \<^verbatim>\<open>__init__\<close> says that
  the values of these keys cannot be updated in cloud mode. \<^verbatim>\<open>AUTH_ENABLED\<close> is such
  a key. The table does not hold it, so \<^verbatim>\<open>_get_current_configs\<close> puts nothing into the
  locked layer for it and a lookup gives the default, false. Then
  \<^verbatim>\<open>update({"AUTH_ENABLED": True})\<close> validates, returns, and the lookup gives true.
\<close>

theorem unstored_locked_key_is_updated:
  "''AUTH_ENABLED'' \<in> set cloud_unmodifiable_config_opts
   \<and> init True ''7c9e6679-7425-40de-944b-e07fc1f90ae7'' Map.empty
     = Inr \<lparr>unmodifiable_config = Map.empty, current_config = Map.empty,
            defaults = default_values ''7c9e6679-7425-40de-944b-e07fc1f90ae7''\<rparr>
   \<and> getitem \<lparr>unmodifiable_config = Map.empty, current_config = Map.empty,
              defaults = default_values ''7c9e6679-7425-40de-944b-e07fc1f90ae7''\<rparr>
         ''AUTH_ENABLED'' = Inr (VBool False)
   \<and> fst (update True ''7c9e6679-7425-40de-944b-e07fc1f90ae7''
             \<lparr>unmodifiable_config = Map.empty, current_config = Map.empty,
              defaults = default_values ''7c9e6679-7425-40de-944b-e07fc1f90ae7''\<rparr>
             [''AUTH_ENABLED'' \<mapsto> VBool True]) = Inr ()
   \<and> getitem (snd (update True ''7c9e6679-7425-40de-944b-e07fc1f90ae7''
             \<lparr>unmodifiable_config = Map.empty, current_config = Map.empty,
              defaults = default_values ''7c9e6679-7425-40de-944b-e07fc1f90ae7''\<rparr>
             [''AUTH_ENABLED'' \<mapsto> VBool True])) ''AUTH_ENABLED'' = Inr (VBool True)"
  by (simp add: init_def get_current_configs_def fetch_settings_from_db_def validate_dict_def
      config_values_def validate_item_def cloud_unmodifiable_config_opts_def update_def
      getitem_def default_values_def)









section \<open>Two writers, one after the other\<close>

text \<open>
  Two calls on the same entity, run one after the other: once the first has written an
  end state, the second matches no row, returns \<open>False\<close> and leaves the table as the
  first call left it. This holds for either order of a \<^verbatim>\<open>SUCCESS\<close> and a \<^verbatim>\<open>FAILURE\<close>
  writer, the roles of the two being symmetric.
\<close>

lemma first_writer_wins:
  assumes "i < length model" and "selected filter_by (model ! i)"
    and "\<forall>j < length model. j \<noteq> i \<longrightarrow> \<not> filter_by_matches filter_by (model ! j)"
    and "statement_values fromisoformat to_timestamp first_update = Inr vals"
    and "first_update ''status'' = Some st"
    and "st \<in> {''SUCCESS'', ''FAILURE'', ''ABORTED''}"
  shows "fst (update_status_db fromisoformat to_timestamp first_update model filter_by) = Inr True"
    and "(snd (update_status_db fromisoformat to_timestamp first_update model filter_by) ! i)
           ''status'' = Some (Text st)"
    and "update_status_db fromisoformat to_timestamp second_update
           (snd (update_status_db fromisoformat to_timestamp first_update model filter_by))
           filter_by =
         (case statement_values fromisoformat to_timestamp second_update of
            Inl e \<Rightarrow> Inl e | Inr data \<Rightarrow> Inr False,
          snd (update_status_db fromisoformat to_timestamp first_update model filter_by))"
proof -
  let ?m1 = "snd (update_status_db fromisoformat to_timestamp first_update model filter_by)"
  show "fst (update_status_db fromisoformat to_timestamp first_update model filter_by) = Inr True"
    using assms(1,2,4) by (rule update_status_db_some_selected(1))
  have len: "length ?m1 = length model" by (rule update_status_db_length)
  have row: "?m1 ! i = (model ! i) ++ vals"
    using assms(1,2,4) by (rule update_status_db_some_selected(2))
  have "\<not> parsed_column st ''status''" by (simp add: parsed_column_def)
  moreover have "''status'' \<notin> set timestamp_columns" by (simp add: timestamp_columns_def)
  ultimately have "vals ''status'' = Some (Text st)"
    using statement_values_columns [OF assms(4,5), of "''status''"] assms(5) by simp
  then show st: "(?m1 ! i) ''status'' = Some (Text st)"
    by (simp add: row map_add_def)
  have "\<forall>r \<in> set ?m1. \<not> selected filter_by r"
  proof
    fix r assume "r \<in> set ?m1"
    then obtain j where j: "j < length model" and r: "r = ?m1 ! j"
      using len by (metis in_set_conv_nth)
    show "\<not> selected filter_by r"
    proof (cases "j = i")
      case True
      have "end_state (?m1 ! i)"
        using st assms(6) by (auto simp: end_state_def status_in_def)
      then show ?thesis unfolding r True by (rule end_state_not_selected)
    next
      case False
      then have nm: "\<not> filter_by_matches filter_by (model ! j)" using assms(3) j by blast
      then have "\<not> selected filter_by (model ! j)" by (simp add: selected_def)
      with j have "?m1 ! j = model ! j"
        by (rule update_status_db_keeps_unselected)
      then show ?thesis using nm r by (simp add: selected_def)
    qed
  qed
  then show "update_status_db fromisoformat to_timestamp second_update ?m1 filter_by =
         (case statement_values fromisoformat to_timestamp second_update of
            Inl e \<Rightarrow> Inl e | Inr data \<Rightarrow> Inr False, ?m1)"
    by (rule update_status_db_none_selected)
qed

end
